theory Spec2Isabelle
  imports Main "HOL-Library.Char_ord" "HOL-Library.List_Lexorder" "HOL-Library.Sublist"
begin

section \<open>Byte strings and the ordered key-value store\<close>

text \<open>
  Go strings and byte slices are sequences of bytes; \<^typ>\<open>char\<close> is a byte, so both are
  \<^typ>\<open>string\<close>. The conversions \<^verbatim>\<open>[]byte(s)\<close> and \<^verbatim>\<open>string(b)\<close> are the identity on
  the bytes; \<^verbatim>\<open>string(nil)\<close> is the empty string.
\<close>

type_synonym bytes = string

fun string_of_bytes :: "bytes option \<Rightarrow> string" where
  "string_of_bytes None = []"
| "string_of_bytes (Some b) = b"

text \<open>
  The store of the module (\<^verbatim>\<open>ctx.KVStore(k.storeKey)\<close>) is the SDK's ordered key-value
  store: a finite map from byte-string keys to byte-string values, iterated in ascending
  byte-lexicographic key order. It is modelled as an association list; a store the SDK
  can hold has its keys strictly ascending (\<open>KVStore_wf\<close>). \<^verbatim>\<open>Get\<close> yields \<^verbatim>\<open>nil\<close>
  (\<open>None\<close>) for a missing key. \<^verbatim>\<open>Set\<close> replaces the entry of the key, or puts a new one at
  its place in key order (\<open>store_insert\<close>); \<^verbatim>\<open>Delete\<close> removes it and does nothing when the
  key is missing. \<^verbatim>\<open>Set\<close> panics on an empty key or a \<^verbatim>\<open>nil\<close> value only: every key
  written by the keeper has a non-empty prefix and every value is a non-\<^verbatim>\<open>nil\<close> slice. The
  prefix iterator runs over the entries whose key starts with the prefix, in key order.
\<close>

type_synonym KVStore = "(bytes \<times> bytes) list"

definition KVStore_wf :: "KVStore \<Rightarrow> bool" where
  "KVStore_wf s = (sorted (map fst s) \<and> distinct (map fst s))"

definition store_Get :: "KVStore \<Rightarrow> bytes \<Rightarrow> bytes option" where
  "store_Get s key = map_of s key"

definition store_Has :: "KVStore \<Rightarrow> bytes \<Rightarrow> bool" where
  "store_Has s key = (store_Get s key \<noteq> None)"

definition store_Delete :: "KVStore \<Rightarrow> bytes \<Rightarrow> KVStore" where
  "store_Delete s key = filter (\<lambda>e. fst e \<noteq> key) s"

fun store_insert :: "bytes \<Rightarrow> bytes \<Rightarrow> KVStore \<Rightarrow> KVStore" where
  "store_insert key v [] = [(key, v)]"
| "store_insert key v (e # s) =
     (if key \<le> fst e then (key, v) # e # s else e # store_insert key v s)"

definition store_Set :: "KVStore \<Rightarrow> bytes \<Rightarrow> bytes \<Rightarrow> KVStore" where
  "store_Set s key v = store_insert key v (store_Delete s key)"

definition KVStorePrefixIterator :: "KVStore \<Rightarrow> bytes \<Rightarrow> (bytes \<times> bytes) list" where
  "KVStorePrefixIterator s p = filter (\<lambda>e. prefix p (fst e)) s"

text \<open>
  \<^verbatim>\<open>strings.Split(s, sep)\<close> for a one-byte separator: the substrings between the
  separators, \<^verbatim>\<open>[s]\<close> when \<^verbatim>\<open>s\<close> holds no separator.
\<close>

function strings_Split :: "string \<Rightarrow> char \<Rightarrow> string list" where
  "strings_Split s sep =
     (case dropWhile (\<lambda>c. c \<noteq> sep) s of
        [] \<Rightarrow> [s]
      | _ # rest \<Rightarrow> takeWhile (\<lambda>c. c \<noteq> sep) s # strings_Split rest sep)"
  by pat_completeness auto
termination
proof (relation "measure (\<lambda>(s, sep). length s)")
  show "wf (measure (\<lambda>(s, sep). length s))" by simp
next
  fix s :: string and sep x rest
  assume "dropWhile (\<lambda>c. c \<noteq> sep) s = x # rest"
  then have "length rest < length (dropWhile (\<lambda>c. c \<noteq> sep) s)" by simp
  also have "\<dots> \<le> length s" by (rule length_dropWhile_le)
  finally show "((rest, sep), (s, sep)) \<in> measure (\<lambda>(s, sep). length s)" by simp
qed

declare strings_Split.simps [simp del]

section \<open>The \<^verbatim>\<open>types\<close> package and the collaborators\<close>

text \<open>
  Modelled from the spec: the key layout of the \<^verbatim>\<open>types\<close> package (\<^verbatim>\<open>PortKeyPrefix\<close>,
  \<^verbatim>\<open>KeyPort\<close>, \<^verbatim>\<open>KeyActiveChannel\<close>, \<^verbatim>\<open>KeyOwnerAccount\<close>), which the keeper imports and
  whose file is not among the sources. The spec gives the keys as
  \<^verbatim>\<open>"port/" + portID\<close>, \<^verbatim>\<open>"active_channel/" + portID\<close> and \<^verbatim>\<open>"owner_account/" + portID\<close>,
  and the scan that enumerates the bound ports as the prefix scan over \<^verbatim>\<open>port/\<close>.
\<close>

definition PortKeyPrefix :: string where
  "PortKeyPrefix = ''port/''"

definition ActiveChannelKeyPrefix :: string where
  "ActiveChannelKeyPrefix = ''active_channel/''"

definition OwnerKeyPrefix :: string where
  "OwnerKeyPrefix = ''owner_account/''"

definition KeyPort :: "string \<Rightarrow> bytes" where
  "KeyPort portID = PortKeyPrefix @ portID"

definition KeyActiveChannel :: "string \<Rightarrow> bytes" where
  "KeyActiveChannel portID = ActiveChannelKeyPrefix @ portID"

definition KeyOwnerAccount :: "string \<Rightarrow> bytes" where
  "KeyOwnerAccount portID = OwnerKeyPrefix @ portID"

text \<open>
  The rest of what \<^verbatim>\<open>NegotiateAppVersion\<close> takes from outside the keeper is a parameter:
  the constants \<^verbatim>\<open>types.ModuleName\<close> and \<^verbatim>\<open>types.VersionPrefix\<close>, the address derivation
  \<^verbatim>\<open>types.GenerateAddress\<close>, the rendering \<^verbatim>\<open>AccAddress.String\<close> and the encoding
  \<^verbatim>\<open>types.NewAppVersion\<close>. Addresses are of an arbitrary type \<open>'addr\<close>.
\<close>

record 'addr types_pkg =
  ModuleName :: string
  VersionPrefix :: string
  GenerateAddress :: "'addr \<Rightarrow> string \<Rightarrow> 'addr"
  AccAddress_String :: "'addr \<Rightarrow> string"
  NewAppVersion :: "string \<Rightarrow> string \<Rightarrow> string"

text \<open>
  \<^verbatim>\<open>sdkerrors.Wrapf(err, format, args...)\<close> on a registered error: the error wrapped with
  the formatted message. The format used below has only \<^verbatim>\<open>%s\<close> verbs on strings, so the
  message is a concatenation.
\<close>

datatype sdk_error = ErrInvalidVersion

datatype error = WrappedError sdk_error string

definition Wrapf :: "sdk_error \<Rightarrow> string \<Rightarrow> error" where
  "Wrapf err msg = WrappedError err msg"

text \<open>A Go runtime panic of the keeper's own code: an index out of range.\<close>

datatype panic = IndexOutOfRange nat nat

text \<open>
  The context gives access to the module's own store and, through the collaborators, to
  the rest of the chain state \<open>'w\<close> (the other modules' stores). A collaborator holds no
  key to this module's store, so it acts on \<open>'w\<close> only.
\<close>

record 'w Context =
  kvStore :: KVStore
  world :: 'w

text \<open>
  The keeper's collaborators that the modelled operations call:
  \<^verbatim>\<open>accountKeeper.GetModuleAddress(name)\<close> and \<^verbatim>\<open>portKeeper.BindPort(ctx, portID)\<close>, which
  returns a capability or fails (a panic of the collaborator, value \<open>Inl\<close>).
\<close>

record ('addr, 'w, 'cap, 'e) Keeper =
  accountKeeper_GetModuleAddress :: "string \<Rightarrow> 'addr"
  portKeeper_BindPort :: "'w \<Rightarrow> string \<Rightarrow> 'e + ('cap \<times> 'w)"

text \<open>\<^verbatim>\<open>channeltypes.Counterparty\<close>: the field read is \<^verbatim>\<open>PortId\<close>; any others are the record's extension.\<close>

record Counterparty =
  PortId :: string

section \<open>The keeper\<close>

text \<open>
  The loop of \<^verbatim>\<open>GetAllPorts\<close> over the iterator's entries; \<^verbatim>\<open>keySplit[1]\<close> panics when
  the split has a single element.
\<close>

fun GetAllPorts_loop :: "(bytes \<times> bytes) list \<Rightarrow> string list \<Rightarrow> panic + string list" where
  "GetAllPorts_loop [] ports = Inr ports"
| "GetAllPorts_loop (e # it) ports =
     (let keySplit = strings_Split (fst e) (CHR ''/'') in
      if 1 < length keySplit then GetAllPorts_loop it (ports @ [keySplit ! 1])
      else Inl (IndexOutOfRange 1 (length keySplit)))"

definition GetAllPorts :: "'w Context \<Rightarrow> panic + string list" where
  "GetAllPorts ctx =
     (let store = kvStore ctx;
          iterator = KVStorePrefixIterator store PortKeyPrefix
      in GetAllPorts_loop iterator [])"

definition BindPort ::
  "('addr, 'w, 'cap, 'e) Keeper \<Rightarrow> 'w Context \<Rightarrow> string \<Rightarrow> 'e + ('cap \<times> 'w Context)" where
  "BindPort k ctx portID =
     (let ctx1 = ctx\<lparr>kvStore := store_Set (kvStore ctx) (KeyPort portID) [CHR 0x01]\<rparr> in
      case portKeeper_BindPort k (world ctx1) portID of
        Inl e \<Rightarrow> Inl e
      | Inr (cap, w) \<Rightarrow> Inr (cap, ctx1\<lparr>world := w\<rparr>))"

definition GetActiveChannelID :: "'w Context \<Rightarrow> string \<Rightarrow> string \<times> bool" where
  "GetActiveChannelID ctx portID =
     (let store = kvStore ctx;
          key = KeyActiveChannel portID
      in if \<not> store_Has store key then ([], False)
         else (string_of_bytes (store_Get store key), True))"

definition SetActiveChannelID :: "'w Context \<Rightarrow> string \<Rightarrow> string \<Rightarrow> 'w Context" where
  "SetActiveChannelID ctx portID channelID =
     ctx\<lparr>kvStore := store_Set (kvStore ctx) (KeyActiveChannel portID) channelID\<rparr>"

definition DeleteActiveChannelID :: "'w Context \<Rightarrow> string \<Rightarrow> 'w Context" where
  "DeleteActiveChannelID ctx portID =
     ctx\<lparr>kvStore := store_Delete (kvStore ctx) (KeyActiveChannel portID)\<rparr>"

definition IsActiveChannel :: "'w Context \<Rightarrow> string \<Rightarrow> bool" where
  "IsActiveChannel ctx portID = snd (GetActiveChannelID ctx portID)"

definition GetInterchainAccountAddress :: "'w Context \<Rightarrow> string \<Rightarrow> string \<times> bool" where
  "GetInterchainAccountAddress ctx portID =
     (let store = kvStore ctx;
          key = KeyOwnerAccount portID
      in if \<not> store_Has store key then ([], False)
         else (string_of_bytes (store_Get store key), True))"

definition SetInterchainAccountAddress :: "'w Context \<Rightarrow> string \<Rightarrow> string \<Rightarrow> 'w Context" where
  "SetInterchainAccountAddress ctx portID address =
     ctx\<lparr>kvStore := store_Set (kvStore ctx) (KeyOwnerAccount portID) address\<rparr>"

text \<open>
  \<^verbatim>\<open>NegotiateAppVersion\<close> returns the pair (version, error) of the source, \<open>None\<close> for
  \<^verbatim>\<open>nil\<close>, together with the context it leaves behind.
\<close>

definition NegotiateAppVersion ::
  "'addr types_pkg \<Rightarrow> ('addr, 'w, 'cap, 'e) Keeper \<Rightarrow> 'w Context \<Rightarrow> 'order \<Rightarrow> string \<Rightarrow> string
     \<Rightarrow> 'c Counterparty_scheme \<Rightarrow> string \<Rightarrow> (string \<times> error option) \<times> 'w Context" where
  "NegotiateAppVersion t k ctx order connectionID portID counterparty proposedVersion =
     (if proposedVersion \<noteq> VersionPrefix t then
        (([], Some (Wrapf ErrInvalidVersion
           (''failed to negotiate app version: expected '' @ VersionPrefix t
              @ '', got '' @ proposedVersion))), ctx)
      else
        let moduleAccAddr = accountKeeper_GetModuleAddress k (ModuleName t);
            accAddr = GenerateAddress t moduleAccAddr (PortId counterparty)
        in ((NewAppVersion t (VersionPrefix t) (AccAddress_String t accAddr), None), ctx))"

text \<open>
  The store-mutating operations as calls, and a sequence of calls run from a context; a call
  that fails (only \<^verbatim>\<open>BindPort\<close> can, in its collaborator) ends the sequence.
\<close>

datatype Call =
  CallBindPort string
| CallSetActiveChannelID string string
| CallDeleteActiveChannelID string
| CallSetInterchainAccountAddress string string

fun call ::
  "('addr, 'w, 'cap, 'e) Keeper \<Rightarrow> 'w Context \<Rightarrow> Call \<Rightarrow> 'e + 'w Context" where
  "call k ctx (CallBindPort portID) =
     (case BindPort k ctx portID of Inl e \<Rightarrow> Inl e | Inr (cap, ctx') \<Rightarrow> Inr ctx')"
| "call k ctx (CallSetActiveChannelID portID channelID) =
     Inr (SetActiveChannelID ctx portID channelID)"
| "call k ctx (CallDeleteActiveChannelID portID) = Inr (DeleteActiveChannelID ctx portID)"
| "call k ctx (CallSetInterchainAccountAddress portID address) =
     Inr (SetInterchainAccountAddress ctx portID address)"

fun calls ::
  "('addr, 'w, 'cap, 'e) Keeper \<Rightarrow> 'w Context \<Rightarrow> Call list \<Rightarrow> 'e + 'w Context" where
  "calls k ctx [] = Inr ctx"
| "calls k ctx (c # cs) =
     (case call k ctx c of Inl e \<Rightarrow> Inl e | Inr ctx' \<Rightarrow> calls k ctx' cs)"

text \<open>The three records of a port, as the store holds them.\<close>

definition PortRecord :: "'w Context \<Rightarrow> string \<Rightarrow> bytes option" where
  "PortRecord ctx portID = store_Get (kvStore ctx) (KeyPort portID)"

definition ActiveChannelRecord :: "'w Context \<Rightarrow> string \<Rightarrow> bytes option" where
  "ActiveChannelRecord ctx portID = store_Get (kvStore ctx) (KeyActiveChannel portID)"

definition AddressRecord :: "'w Context \<Rightarrow> string \<Rightarrow> bytes option" where
  "AddressRecord ctx portID = store_Get (kvStore ctx) (KeyOwnerAccount portID)"

text \<open>
  The part of a key between its first and its second \<^verbatim>\<open>/\<close> (up to the end of the key when
  there is no second one); used to state what \<^verbatim>\<open>keySplit[1]\<close> is.
\<close>

definition second_segment :: "string \<Rightarrow> string" where
  "second_segment key =
     takeWhile (\<lambda>c. c \<noteq> CHR ''/'') (tl (dropWhile (\<lambda>c. c \<noteq> CHR ''/'') key))"

text \<open>
  An instance of the parameters, to run the operations on concrete inputs: addresses are
  strings, the chain state outside the module is the list of the ports bound so far, a
  capability is the name of its port, and the port collaborator accepts every bind.
\<close>

definition test_types :: "string types_pkg" where
  "test_types =
     \<lparr>ModuleName = ''interchainaccounts'',
      VersionPrefix = ''ics27-1'',
      GenerateAddress = (\<lambda>moduleAccAddr portID. moduleAccAddr @ ''|'' @ portID),
      AccAddress_String = (\<lambda>addr. ''cosmos1'' @ addr),
      NewAppVersion = (\<lambda>versionPrefix accAddr. versionPrefix @ ''.'' @ accAddr)\<rparr>"

definition test_keeper :: "(string, string list, string, string) Keeper" where
  "test_keeper =
     \<lparr>accountKeeper_GetModuleAddress = (\<lambda>name. ''module-'' @ name),
      portKeeper_BindPort = (\<lambda>w portID. Inr (portID, portID # w))\<rparr>"

definition test_ctx :: "string list Context" where
  "test_ctx =
     \<lparr>kvStore =
        [(''active_channel/icacontroller-2'', ''channel-5''),
         (''owner_account/icacontroller-2'', ''cosmos1xyz''),
         (''port/icacontroller-2'', [CHR 0x01])],
      world = [''icacontroller-2'']\<rparr>"

section \<open>The store\<close>

lemma store_Get_insert_other:
  "key' \<noteq> key \<Longrightarrow> store_Get (store_insert key v s) key' = store_Get s key'"
  by (induction s) (auto simp: store_Get_def)

lemma store_Get_insert_same:
  "store_Get s key = None \<Longrightarrow> store_Get (store_insert key v s) key = Some v"
  by (induction s) (auto simp: store_Get_def)

lemma store_Get_Delete:
  "store_Get (store_Delete s key) key' = (if key' = key then None else store_Get s key')"
  by (induction s) (auto simp: store_Get_def store_Delete_def)

lemma store_Get_Set:
  "store_Get (store_Set s key v) key' = (if key' = key then Some v else store_Get s key')"
  by (simp add: store_Set_def store_Get_insert_other store_Get_insert_same store_Get_Delete)

lemma filter_key_Delete: "filter (\<lambda>e. fst e = key) (store_Delete s key) = []"
  by (induction s) (auto simp: store_Delete_def)

lemma filter_key_insert:
  "filter (\<lambda>e. fst e = key) (store_insert key v s) = (key, v) # filter (\<lambda>e. fst e = key) s"
  by (induction s) auto

lemma filter_key_Set: "filter (\<lambda>e. fst e = key) (store_Set s key v) = [(key, v)]"
  by (simp add: store_Set_def filter_key_insert filter_key_Delete)

lemma set_store_Delete: "set (store_Delete s key) = {e \<in> set s. fst e \<noteq> key}"
  by (auto simp: store_Delete_def)

lemma set_store_insert: "set (store_insert key v s) = insert (key, v) (set s)"
  by (induction s) auto

lemma set_store_Set:
  "set (store_Set s key v) = insert (key, v) {e \<in> set s. fst e \<noteq> key}"
  by (simp add: store_Set_def set_store_insert set_store_Delete)

text \<open>Every write keeps the keys strictly ascending.\<close>

lemma sorted_store_insert:
  "sorted (map fst s) \<Longrightarrow> sorted (map fst (store_insert key v s))"
  by (induction s) (auto simp: set_store_insert)

lemma distinct_store_insert:
  "distinct (map fst s) \<Longrightarrow> key \<notin> fst ` set s \<Longrightarrow> distinct (map fst (store_insert key v s))"
  by (induction s) (auto simp: set_store_insert)

lemma KVStore_wf_Delete: "KVStore_wf s \<Longrightarrow> KVStore_wf (store_Delete s key)"
  by (simp add: KVStore_wf_def store_Delete_def sorted_filter distinct_map_filter)

lemma KVStore_wf_Set: "KVStore_wf s \<Longrightarrow> KVStore_wf (store_Set s key v)"
proof -
  assume "KVStore_wf s"
  then have d: "KVStore_wf (store_Delete s key)" by (rule KVStore_wf_Delete)
  have "key \<notin> fst ` set (store_Delete s key)" by (auto simp: set_store_Delete)
  with d show ?thesis
    by (simp add: KVStore_wf_def store_Set_def sorted_store_insert distinct_store_insert)
qed

lemma KVStore_wf_iterator: "KVStore_wf s \<Longrightarrow> KVStore_wf (KVStorePrefixIterator s p)"
  by (simp add: KVStore_wf_def KVStorePrefixIterator_def sorted_filter distinct_map_filter)

text \<open>A store is determined by the set of its entries.\<close>

lemma KVStore_wf_unique:
  assumes "KVStore_wf xs" and "KVStore_wf ys" and "set xs = set ys"
  shows "xs = ys"
proof -
  from assms have "map fst xs = map fst ys"
    by (intro sorted_distinct_set_unique) (auto simp: KVStore_wf_def)
  moreover from assms have "inj_on fst (set xs \<union> set ys)"
    by (simp add: KVStore_wf_def distinct_map)
  ultimately show ?thesis by (simp add: inj_on_map_eq_map)
qed

section \<open>Splitting a key\<close>

lemma strings_Split_no_sep:
  assumes "sep \<notin> set s"
  shows "strings_Split s sep = [s]"
proof -
  from assms have d: "dropWhile (\<lambda>c. c \<noteq> sep) s = []"
    by (auto simp: dropWhile_eq_Nil_conv)
  show ?thesis unfolding strings_Split.simps [of s sep] d by simp
qed

lemma strings_Split_sep:
  assumes "sep \<in> set s"
  shows "strings_Split s sep =
       takeWhile (\<lambda>c. c \<noteq> sep) s # strings_Split (tl (dropWhile (\<lambda>c. c \<noteq> sep) s)) sep"
proof -
  from assms have "dropWhile (\<lambda>c. c \<noteq> sep) s \<noteq> []"
    by (auto simp: dropWhile_eq_Nil_conv)
  then obtain x rest where "dropWhile (\<lambda>c. c \<noteq> sep) s = x # rest"
    by (cases "dropWhile (\<lambda>c. c \<noteq> sep) s") auto
  then show ?thesis by (simp add: strings_Split.simps [of s sep])
qed

lemma strings_Split_not_Nil: "strings_Split s sep \<noteq> []"
  by (cases "sep \<in> set s") (simp_all add: strings_Split_sep strings_Split_no_sep)

lemma strings_Split_hd: "hd (strings_Split s sep) = takeWhile (\<lambda>c. c \<noteq> sep) s"
proof (cases "sep \<in> set s")
  case True
  then show ?thesis by (simp add: strings_Split_sep)
next
  case False
  have tw: "takeWhile (\<lambda>c. c \<noteq> sep) s = s"
    by (rule takeWhile_eq_all_conv [THEN iffD2]) (use False in auto)
  show ?thesis by (simp only: strings_Split_no_sep [OF False] tw list.sel)
qed

lemma strings_Split_second:
  assumes "sep \<in> set s"
  shows "1 < length (strings_Split s sep)"
    and "strings_Split s sep ! 1 =
           takeWhile (\<lambda>c. c \<noteq> sep) (tl (dropWhile (\<lambda>c. c \<noteq> sep) s))"
proof -
  let ?rest = "tl (dropWhile (\<lambda>c. c \<noteq> sep) s)"
  have ne: "strings_Split ?rest sep \<noteq> []" by (rule strings_Split_not_Nil)
  then show "1 < length (strings_Split s sep)"
    by (simp add: strings_Split_sep [OF assms])
  have "strings_Split s sep ! 1 = hd (strings_Split ?rest sep)"
    using ne by (simp add: strings_Split_sep [OF assms] hd_conv_nth)
  then show "strings_Split s sep ! 1 = takeWhile (\<lambda>c. c \<noteq> sep) ?rest"
    by (simp add: strings_Split_hd)
qed

section \<open>The keys\<close>

lemma Key_inj [simp]:
  "KeyPort p = KeyPort q \<longleftrightarrow> p = q"
  "KeyActiveChannel p = KeyActiveChannel q \<longleftrightarrow> p = q"
  "KeyOwnerAccount p = KeyOwnerAccount q \<longleftrightarrow> p = q"
  by (simp_all add: KeyPort_def KeyActiveChannel_def KeyOwnerAccount_def)

lemma Key_disjoint [simp]:
  "KeyPort p \<noteq> KeyActiveChannel q" "KeyActiveChannel q \<noteq> KeyPort p"
  "KeyPort p \<noteq> KeyOwnerAccount q" "KeyOwnerAccount q \<noteq> KeyPort p"
  "KeyActiveChannel p \<noteq> KeyOwnerAccount q" "KeyOwnerAccount q \<noteq> KeyActiveChannel p"
  by (simp_all add: KeyPort_def KeyActiveChannel_def KeyOwnerAccount_def
      PortKeyPrefix_def ActiveChannelKeyPrefix_def OwnerKeyPrefix_def)

lemma prefix_Key [simp]:
  "prefix PortKeyPrefix (KeyPort p)"
  "\<not> prefix PortKeyPrefix (KeyActiveChannel p)"
  "\<not> prefix PortKeyPrefix (KeyOwnerAccount p)"
  by (simp_all add: KeyPort_def KeyActiveChannel_def KeyOwnerAccount_def
      PortKeyPrefix_def ActiveChannelKeyPrefix_def OwnerKeyPrefix_def)

lemma prefix_PortKeyPrefix_sep: "prefix PortKeyPrefix key \<Longrightarrow> CHR ''/'' \<in> set key"
  by (auto simp: prefix_def PortKeyPrefix_def)

lemma second_segment_KeyPort:
  "second_segment (KeyPort p) = takeWhile (\<lambda>c. c \<noteq> CHR ''/'') p"
  by (simp add: second_segment_def KeyPort_def PortKeyPrefix_def)

section \<open>The records under each operation\<close>

lemma GetActiveChannelID_record:
  "GetActiveChannelID ctx p =
     (case ActiveChannelRecord ctx p of None \<Rightarrow> ([], False) | Some c \<Rightarrow> (c, True))"
  by (simp add: GetActiveChannelID_def ActiveChannelRecord_def store_Has_def split: option.split)

lemma GetInterchainAccountAddress_record:
  "GetInterchainAccountAddress ctx p =
     (case AddressRecord ctx p of None \<Rightarrow> ([], False) | Some a \<Rightarrow> (a, True))"
  by (simp add: GetInterchainAccountAddress_def AddressRecord_def store_Has_def
      split: option.split)

lemma records_SetActiveChannelID:
  "PortRecord (SetActiveChannelID ctx p c) q = PortRecord ctx q"
  "ActiveChannelRecord (SetActiveChannelID ctx p c) q =
     (if q = p then Some c else ActiveChannelRecord ctx q)"
  "AddressRecord (SetActiveChannelID ctx p c) q = AddressRecord ctx q"
  by (simp_all add: PortRecord_def ActiveChannelRecord_def AddressRecord_def
      SetActiveChannelID_def store_Get_Set)

lemma records_DeleteActiveChannelID:
  "PortRecord (DeleteActiveChannelID ctx p) q = PortRecord ctx q"
  "ActiveChannelRecord (DeleteActiveChannelID ctx p) q =
     (if q = p then None else ActiveChannelRecord ctx q)"
  "AddressRecord (DeleteActiveChannelID ctx p) q = AddressRecord ctx q"
  by (simp_all add: PortRecord_def ActiveChannelRecord_def AddressRecord_def
      DeleteActiveChannelID_def store_Get_Delete)

lemma records_SetInterchainAccountAddress:
  "PortRecord (SetInterchainAccountAddress ctx p a) q = PortRecord ctx q"
  "ActiveChannelRecord (SetInterchainAccountAddress ctx p a) q = ActiveChannelRecord ctx q"
  "AddressRecord (SetInterchainAccountAddress ctx p a) q =
     (if q = p then Some a else AddressRecord ctx q)"
  by (simp_all add: PortRecord_def ActiveChannelRecord_def AddressRecord_def
      SetInterchainAccountAddress_def store_Get_Set)

lemma BindPort_kvStore:
  "BindPort k ctx p = Inr (cap, ctx') \<Longrightarrow>
     kvStore ctx' = store_Set (kvStore ctx) (KeyPort p) [CHR 0x01]"
  by (auto simp: BindPort_def Let_def split: sum.splits)

lemma records_BindPort:
  assumes "BindPort k ctx p = Inr (cap, ctx')"
  shows "PortRecord ctx' q = (if q = p then Some [CHR 0x01] else PortRecord ctx q)"
    and "ActiveChannelRecord ctx' q = ActiveChannelRecord ctx q"
    and "AddressRecord ctx' q = AddressRecord ctx q"
  using BindPort_kvStore [OF assms]
  by (simp_all add: PortRecord_def ActiveChannelRecord_def AddressRecord_def store_Get_Set)

lemma AddressRecord_call:
  assumes "call k ctx c = Inr ctx'" and "\<And>a. c \<noteq> CallSetInterchainAccountAddress p a"
  shows "AddressRecord ctx' p = AddressRecord ctx p"
proof (cases c)
  case (CallBindPort q)
  with assms(1) obtain cap where "BindPort k ctx q = Inr (cap, ctx')"
    by (auto split: sum.splits)
  then show ?thesis by (rule records_BindPort)
next
  case (CallSetActiveChannelID q ch)
  with assms(1) show ?thesis by (auto simp: records_SetActiveChannelID)
next
  case (CallDeleteActiveChannelID q)
  with assms(1) show ?thesis by (auto simp: records_DeleteActiveChannelID)
next
  case (CallSetInterchainAccountAddress q a)
  with assms(2) have "q \<noteq> p" by auto
  with CallSetInterchainAccountAddress assms(1) show ?thesis
    by (auto simp: records_SetInterchainAccountAddress)
qed

lemma AddressRecord_calls:
  "calls k ctx cs = Inr ctx' \<Longrightarrow> \<forall>a. CallSetInterchainAccountAddress p a \<notin> set cs \<Longrightarrow>
     AddressRecord ctx' p = AddressRecord ctx p"
proof (induction cs arbitrary: ctx)
  case Nil
  then show ?case by simp
next
  case (Cons c cs)
  from Cons.prems(1) obtain ctx1 where c: "call k ctx c = Inr ctx1"
    and rest: "calls k ctx1 cs = Inr ctx'"
    by (auto split: sum.splits)
  from Cons.prems(2) have "\<And>a. c \<noteq> CallSetInterchainAccountAddress p a" by auto
  with c have "AddressRecord ctx1 p = AddressRecord ctx p" by (rule AddressRecord_call)
  moreover from Cons.prems(2) have "AddressRecord ctx' p = AddressRecord ctx1 p"
    by (intro Cons.IH [OF rest]) auto
  ultimately show ?case by simp
qed

section \<open>Sequences of calls on a fresh store\<close>

lemma call_kvStore:
  "call k ctx c = Inr ctx' \<Longrightarrow>
     kvStore ctx' =
       (case c of
          CallBindPort p \<Rightarrow> store_Set (kvStore ctx) (KeyPort p) [CHR 0x01]
        | CallSetActiveChannelID p ch \<Rightarrow> store_Set (kvStore ctx) (KeyActiveChannel p) ch
        | CallDeleteActiveChannelID p \<Rightarrow> store_Delete (kvStore ctx) (KeyActiveChannel p)
        | CallSetInterchainAccountAddress p a \<Rightarrow> store_Set (kvStore ctx) (KeyOwnerAccount p) a)"
  by (cases c)
    (auto simp: SetActiveChannelID_def DeleteActiveChannelID_def
      SetInterchainAccountAddress_def split: sum.splits dest: BindPort_kvStore)

lemma calls_snoc:
  "calls k ctx (cs @ [c]) =
     (case calls k ctx cs of Inl e \<Rightarrow> Inl e | Inr ctx1 \<Rightarrow> call k ctx1 c)"
  by (induction cs arbitrary: ctx) (auto split: sum.splits)

lemma KVStore_wf_call:
  "call k ctx c = Inr ctx' \<Longrightarrow> KVStore_wf (kvStore ctx) \<Longrightarrow> KVStore_wf (kvStore ctx')"
  by (drule call_kvStore) (auto split: Call.splits intro: KVStore_wf_Set KVStore_wf_Delete)

lemma set_iterator_call:
  assumes "call k ctx c = Inr ctx'"
  shows "set (KVStorePrefixIterator (kvStore ctx') PortKeyPrefix) =
     (case c of
        CallBindPort p \<Rightarrow>
          insert (KeyPort p, [CHR 0x01])
            {e \<in> set (KVStorePrefixIterator (kvStore ctx) PortKeyPrefix). fst e \<noteq> KeyPort p}
      | _ \<Rightarrow> set (KVStorePrefixIterator (kvStore ctx) PortKeyPrefix))"
  using call_kvStore [OF assms]
  by (cases c) (auto simp: KVStorePrefixIterator_def set_store_Set set_store_Delete)

lemma bound_ports_snoc:
  "{p. CallBindPort p \<in> set (cs @ [c])} =
     (case c of CallBindPort q \<Rightarrow> insert q {p. CallBindPort p \<in> set cs}
      | _ \<Rightarrow> {p. CallBindPort p \<in> set cs})"
  by (cases c) auto

lemma port_entries_rebind:
  "insert (KeyPort q, v) {e \<in> (\<lambda>p. (KeyPort p, v)) ` B. fst e \<noteq> KeyPort q} =
     (\<lambda>p. (KeyPort p, v)) ` insert q B"
  by (auto simp: image_iff)

text \<open>
  From a fresh store, whatever calls are made, the port records are exactly those of the
  ports that were bound, one each.
\<close>

lemma calls_fresh_invariant:
  "calls k \<lparr>kvStore = [], world = w\<rparr> cs = Inr ctx' \<Longrightarrow>
     KVStore_wf (kvStore ctx') \<and>
     set (KVStorePrefixIterator (kvStore ctx') PortKeyPrefix) =
       (\<lambda>p. (KeyPort p, [CHR 0x01])) ` {p. CallBindPort p \<in> set cs}"
proof (induction cs arbitrary: ctx' rule: rev_induct)
  case Nil
  then show ?case by (auto simp: KVStore_wf_def KVStorePrefixIterator_def)
next
  case (snoc c cs)
  from snoc.prems obtain ctx1 where cs: "calls k \<lparr>kvStore = [], world = w\<rparr> cs = Inr ctx1"
    and c: "call k ctx1 c = Inr ctx'"
    by (auto simp: calls_snoc split: sum.splits)
  note IH = snoc.IH [OF cs]
  from c IH have "KVStore_wf (kvStore ctx')" by (blast intro: KVStore_wf_call)
  moreover have "set (KVStorePrefixIterator (kvStore ctx') PortKeyPrefix) =
       (\<lambda>p. (KeyPort p, [CHR 0x01])) ` {p. CallBindPort p \<in> set (cs @ [c])}"
    unfolding set_iterator_call [OF c] bound_ports_snoc conjunct2 [OF IH]
    by (cases c) (simp_all only: Call.case port_entries_rebind)
  ultimately show ?case by simp
qed

section \<open>What \<^verbatim>\<open>GetAllPorts\<close> returns\<close>

lemma GetAllPorts_loop_segments:
  "\<forall>e \<in> set it. CHR ''/'' \<in> set (fst e) \<Longrightarrow>
     GetAllPorts_loop it ports = Inr (ports @ map (\<lambda>e. second_segment (fst e)) it)"
  by (induction it arbitrary: ports)
     (simp_all add: Let_def strings_Split_second [unfolded One_nat_def] second_segment_def)

lemma GetAllPorts_segments:
  "GetAllPorts ctx =
     Inr (map (\<lambda>e. second_segment (fst e)) (KVStorePrefixIterator (kvStore ctx) PortKeyPrefix))"
proof -
  have "\<forall>e \<in> set (KVStorePrefixIterator (kvStore ctx) PortKeyPrefix). CHR ''/'' \<in> set (fst e)"
    by (simp add: KVStorePrefixIterator_def prefix_PortKeyPrefix_sep)
  then show ?thesis
    by (simp add: GetAllPorts_def Let_def GetAllPorts_loop_segments)
qed

section \<open>The claims\<close>

text \<open>
  Claim C1. When the proposed version is exactly the supported \<^verbatim>\<open>VersionPrefix\<close>,
  \<^verbatim>\<open>NegotiateAppVersion\<close> returns no error, and the version it returns is \<^verbatim>\<open>NewAppVersion\<close>
  of the prefix and of the rendered address that \<^verbatim>\<open>GenerateAddress\<close> derives from the
  module account address and the counterparty port identifier. The right-hand side
  mentions no other input, so equal inputs give equal output strings; the context is
  returned as it was.
\<close>

theorem C1_NegotiateAppVersion_supported:
  "NegotiateAppVersion t k ctx order connectionID portID counterparty (VersionPrefix t) =
     ((NewAppVersion t (VersionPrefix t)
         (AccAddress_String t
            (GenerateAddress t (accountKeeper_GetModuleAddress k (ModuleName t))
               (PortId counterparty))), None), ctx)"
  by (simp add: NegotiateAppVersion_def)

text \<open>
  Claim C2. When the proposed version differs from \<^verbatim>\<open>VersionPrefix\<close>, the version returned
  is the empty string, the error is \<^verbatim>\<open>ErrInvalidVersion\<close> wrapped with a message that
  holds the expected and the received version, and the context is unchanged.
\<close>

theorem C2_NegotiateAppVersion_mismatch:
  "proposedVersion \<noteq> VersionPrefix t \<Longrightarrow>
   NegotiateAppVersion t k ctx order connectionID portID counterparty proposedVersion =
     (([], Some (WrappedError ErrInvalidVersion
         (''failed to negotiate app version: expected '' @ VersionPrefix t
            @ '', got '' @ proposedVersion))), ctx)"
  by (simp add: NegotiateAppVersion_def Wrapf_def)

theorem C2_NegotiateAppVersion_mismatch_witness:
  "''ics27-2'' \<noteq> VersionPrefix test_types
   \<and> NegotiateAppVersion test_types test_keeper test_ctx () ''connection-0'' ''icacontroller-1''
        \<lparr>PortId = ''icahost''\<rparr> ''ics27-2'' =
      (([], Some (WrappedError ErrInvalidVersion
          ''failed to negotiate app version: expected ics27-1, got ics27-2'')), test_ctx)"
proof -
  have h: "''ics27-2'' \<noteq> VersionPrefix test_types" by (simp add: test_types_def)
  from C2_NegotiateAppVersion_mismatch [OF h, of test_keeper test_ctx "()" "''connection-0''"
      "''icacontroller-1''" "\<lparr>PortId = ''icahost''\<rparr>"] h
  show ?thesis by (simp add: test_types_def)
qed

text \<open>
  Claim C3 says that a second \<^verbatim>\<open>SetInterchainAccountAddress\<close> for a port does not change
  the stored address. It does: the second write replaces the first.
\<close>

theorem C3_counterexample:
  "GetInterchainAccountAddress
     (SetInterchainAccountAddress test_ctx ''icacontroller-1'' ''cosmos1aaa'')
     ''icacontroller-1'' = (''cosmos1aaa'', True)
   \<and> GetInterchainAccountAddress
       (SetInterchainAccountAddress
          (SetInterchainAccountAddress test_ctx ''icacontroller-1'' ''cosmos1aaa'')
          ''icacontroller-1'' ''cosmos1bbb'')
       ''icacontroller-1'' = (''cosmos1bbb'', True)
   \<and> ''cosmos1bbb'' \<noteq> ''cosmos1aaa''"
  by (simp add: GetInterchainAccountAddress_record records_SetInterchainAccountAddress)

text \<open>
  Claim C3, amended. The stored address of a port \<open>p\<close> is left as it is by every call
  other than \<^verbatim>\<open>SetInterchainAccountAddress\<close> for \<open>p\<close> itself (\<^verbatim>\<open>BindPort\<close>,
  \<^verbatim>\<open>SetActiveChannelID\<close>, \<^verbatim>\<open>DeleteActiveChannelID\<close> for any port, and
  \<^verbatim>\<open>SetInterchainAccountAddress\<close> for another port); \<^verbatim>\<open>SetInterchainAccountAddress\<close> for
  \<open>p\<close> overwrites unconditionally, so after two of them the second address is the one read.
\<close>

theorem C3_address_changed_only_by_SetInterchainAccountAddress:
  "(call k ctx c = Inr ctx' \<and> (\<forall>a. c \<noteq> CallSetInterchainAccountAddress p a)
      \<longrightarrow> GetInterchainAccountAddress ctx' p = GetInterchainAccountAddress ctx p)
   \<and> GetInterchainAccountAddress
       (SetInterchainAccountAddress (SetInterchainAccountAddress ctx p a1) p a2) p = (a2, True)"
proof (intro conjI impI)
  assume "call k ctx c = Inr ctx' \<and> (\<forall>a. c \<noteq> CallSetInterchainAccountAddress p a)"
  then have "AddressRecord ctx' p = AddressRecord ctx p"
    by (intro AddressRecord_call [of k ctx c]) auto
  then show "GetInterchainAccountAddress ctx' p = GetInterchainAccountAddress ctx p"
    by (simp add: GetInterchainAccountAddress_record)
next
  show "GetInterchainAccountAddress
       (SetInterchainAccountAddress (SetInterchainAccountAddress ctx p a1) p a2) p = (a2, True)"
    by (simp add: GetInterchainAccountAddress_record records_SetInterchainAccountAddress)
qed

theorem C3_address_changed_only_by_SetInterchainAccountAddress_witness:
  "call test_keeper test_ctx (CallBindPort ''icacontroller-2'')
     = Inr (test_ctx\<lparr>world := [''icacontroller-2'', ''icacontroller-2'']\<rparr>)
   \<and> (\<forall>a. CallBindPort ''icacontroller-2'' \<noteq> CallSetInterchainAccountAddress ''icacontroller-2'' a)
   \<and> GetInterchainAccountAddress (test_ctx\<lparr>world := [''icacontroller-2'', ''icacontroller-2'']\<rparr>)
        ''icacontroller-2'' = (''cosmos1xyz'', True)"
proof -
  have run: "call test_keeper test_ctx (CallBindPort ''icacontroller-2'')
     = Inr (test_ctx\<lparr>world := [''icacontroller-2'', ''icacontroller-2'']\<rparr>)"
    by (simp add: BindPort_def test_keeper_def test_ctx_def store_Set_def store_Delete_def
        KeyPort_def PortKeyPrefix_def)
  have get: "GetInterchainAccountAddress test_ctx ''icacontroller-2'' = (''cosmos1xyz'', True)"
    by (simp add: GetInterchainAccountAddress_def test_ctx_def store_Has_def store_Get_def
        KeyOwnerAccount_def OwnerKeyPrefix_def)
  from C3_address_changed_only_by_SetInterchainAccountAddress
         [of test_keeper test_ctx "CallBindPort ''icacontroller-2''"
             "test_ctx\<lparr>world := [''icacontroller-2'', ''icacontroller-2'']\<rparr>"
             "''icacontroller-2''"] run get
  show ?thesis by simp
qed

text \<open>
  Claim C4. After \<^verbatim>\<open>SetActiveChannelID(p, c1)\<close> and \<^verbatim>\<open>SetActiveChannelID(p, c2)\<close>,
  \<^verbatim>\<open>GetActiveChannelID(p)\<close> returns \<^verbatim>\<open>(c2, true)\<close>, and the store holds exactly one entry
  under the active-channel key of \<open>p\<close>, the one for \<open>c2\<close>.
\<close>

theorem C4_SetActiveChannelID_last_write_wins:
  "GetActiveChannelID (SetActiveChannelID (SetActiveChannelID ctx p c1) p c2) p = (c2, True)
   \<and> filter (\<lambda>e. fst e = KeyActiveChannel p)
        (kvStore (SetActiveChannelID (SetActiveChannelID ctx p c1) p c2))
      = [(KeyActiveChannel p, c2)]"
  by (simp add: GetActiveChannelID_record records_SetActiveChannelID)
     (simp add: SetActiveChannelID_def filter_key_Set)

text \<open>
  Claim C5. Two calls of \<^verbatim>\<open>NegotiateAppVersion\<close> on the same keeper with the same
  proposed version and the same counterparty port identifier return the same version and
  the same error, whatever the ordering, the connection identifier, the local port
  identifier, the other fields of the counterparty and the context of each call.
\<close>

theorem C5_NegotiateAppVersion_ignores_order_connection_port:
  "fst (NegotiateAppVersion t k ctx1 order1 connectionID1 portID1
          (counterparty1\<lparr>PortId := counterpartyPortID\<rparr>) proposedVersion) =
   fst (NegotiateAppVersion t k ctx2 order2 connectionID2 portID2
          (counterparty2\<lparr>PortId := counterpartyPortID\<rparr>) proposedVersion)"
  by (simp add: NegotiateAppVersion_def)

text \<open>
  Claim C6. Starting from a fresh store, after any sequence of calls that returns and
  whose \<^verbatim>\<open>BindPort\<close> calls bind exactly the ports \<^verbatim>\<open>"a"\<close>, \<^verbatim>\<open>"b"\<close> and \<^verbatim>\<open>"c"\<close>, in any
  order and any number of times each, \<^verbatim>\<open>GetAllPorts\<close> returns each of the three once (in
  key order).
\<close>

theorem C6_GetAllPorts_after_binding_a_b_c:
  assumes "calls k \<lparr>kvStore = [], world = w\<rparr> cs = Inr ctx'"
    and "{p. CallBindPort p \<in> set cs} = {''a'', ''b'', ''c''}"
  shows "GetAllPorts ctx' = Inr [''a'', ''b'', ''c'']"
proof -
  let ?it = "KVStorePrefixIterator (kvStore ctx') PortKeyPrefix"
  let ?abc = "[(KeyPort ''a'', [CHR 0x01]), (KeyPort ''b'', [CHR 0x01]), (KeyPort ''c'', [CHR 0x01])]"
  from calls_fresh_invariant [OF assms(1)] assms(2)
  have wf: "KVStore_wf ?it" and set: "set ?it = set ?abc"
    by (simp_all add: KVStore_wf_iterator)
  have "KVStore_wf ?abc"
    by (simp add: KVStore_wf_def KeyPort_def PortKeyPrefix_def)
  with wf set have "?it = ?abc" by (intro KVStore_wf_unique)
  then show ?thesis
    by (simp add: GetAllPorts_segments second_segment_KeyPort)
qed

theorem C6_GetAllPorts_after_binding_a_b_c_witness:
  "\<exists>ctx'. calls test_keeper \<lparr>kvStore = [], world = []\<rparr>
       [CallBindPort ''c'', CallBindPort ''a'', CallBindPort ''c'', CallBindPort ''b'',
        CallBindPort ''a'', CallBindPort ''c''] = Inr ctx'
     \<and> GetAllPorts ctx' = Inr [''a'', ''b'', ''c'']"
proof -
  let ?cs = "[CallBindPort ''c'', CallBindPort ''a'', CallBindPort ''c'', CallBindPort ''b'',
        CallBindPort ''a'', CallBindPort ''c'']"
  have "\<exists>ctx'. calls test_keeper \<lparr>kvStore = [], world = []\<rparr> ?cs = Inr ctx'"
    by (simp add: BindPort_def test_keeper_def)
  then obtain ctx' where run: "calls test_keeper \<lparr>kvStore = [], world = []\<rparr> ?cs = Inr ctx'" ..
  have bound: "{p. CallBindPort p \<in> set ?cs} = {''a'', ''b'', ''c''}" by auto
  from C6_GetAllPorts_after_binding_a_b_c [OF run bound] run show ?thesis by blast
qed

text \<open>
  Claim C7. \<^verbatim>\<open>GetInterchainAccountAddress(p)\<close> after \<^verbatim>\<open>SetInterchainAccountAddress(p, addr)\<close>
  returns \<^verbatim>\<open>(addr, true)\<close>. For a port whose address was never set (no call of the
  sequence run from a fresh store sets it) it returns the empty string and \<^verbatim>\<open>false\<close>: the
  result is a pair of a string and a boolean, with no error component.
\<close>

theorem C7_address_round_trip:
  "GetInterchainAccountAddress (SetInterchainAccountAddress ctx p addr) p = (addr, True)
   \<and> (calls k \<lparr>kvStore = [], world = w\<rparr> cs = Inr ctx'
        \<and> (\<forall>a. CallSetInterchainAccountAddress p a \<notin> set cs)
      \<longrightarrow> GetInterchainAccountAddress ctx' p = ([], False))"
proof (intro conjI impI)
  show "GetInterchainAccountAddress (SetInterchainAccountAddress ctx p addr) p = (addr, True)"
    by (simp add: GetInterchainAccountAddress_record records_SetInterchainAccountAddress)
next
  assume "calls k \<lparr>kvStore = [], world = w\<rparr> cs = Inr ctx'
        \<and> (\<forall>a. CallSetInterchainAccountAddress p a \<notin> set cs)"
  then have "AddressRecord ctx' p = AddressRecord \<lparr>kvStore = [], world = w\<rparr> p"
    by (intro AddressRecord_calls [of k _ cs]) auto
  then show "GetInterchainAccountAddress ctx' p = ([], False)"
    by (simp add: GetInterchainAccountAddress_record) (simp add: AddressRecord_def store_Get_def)
qed

theorem C7_address_round_trip_witness:
  "\<exists>ctx'. calls test_keeper \<lparr>kvStore = [], world = []\<rparr>
       [CallBindPort ''icacontroller-1'',
        CallSetActiveChannelID ''icacontroller-1'' ''channel-0'',
        CallSetInterchainAccountAddress ''icacontroller-2'' ''cosmos1xyz''] = Inr ctx'
     \<and> (\<forall>a. CallSetInterchainAccountAddress ''icacontroller-1'' a \<notin> set
       [CallBindPort ''icacontroller-1'',
        CallSetActiveChannelID ''icacontroller-1'' ''channel-0'',
        CallSetInterchainAccountAddress ''icacontroller-2'' ''cosmos1xyz''])
     \<and> GetInterchainAccountAddress ctx' ''icacontroller-1'' = ([], False)"
proof -
  let ?cs = "[CallBindPort ''icacontroller-1'',
        CallSetActiveChannelID ''icacontroller-1'' ''channel-0'',
        CallSetInterchainAccountAddress ''icacontroller-2'' ''cosmos1xyz'']"
  have "\<exists>ctx'. calls test_keeper \<lparr>kvStore = [], world = []\<rparr> ?cs = Inr ctx'"
    by (simp add: BindPort_def test_keeper_def)
  then obtain ctx' where run: "calls test_keeper \<lparr>kvStore = [], world = []\<rparr> ?cs = Inr ctx'" ..
  have never: "\<forall>a. CallSetInterchainAccountAddress ''icacontroller-1'' a \<notin> set ?cs" by simp
  from C7_address_round_trip [where k = test_keeper and w = "[]" and cs = ?cs and ctx' = ctx'
      and p = "''icacontroller-1''"] run never
  show ?thesis by blast
qed

text \<open>
  Claim C8. In any context, after any sequence of \<^verbatim>\<open>SetActiveChannelID\<close> calls for \<open>p\<close>,
  \<^verbatim>\<open>DeleteActiveChannelID(p)\<close> makes \<^verbatim>\<open>IsActiveChannel(p)\<close> false and
  \<^verbatim>\<open>GetActiveChannelID(p)\<close> return the empty string and \<^verbatim>\<open>false\<close>.
\<close>

theorem C8_DeleteActiveChannelID_clears:
  "IsActiveChannel
     (DeleteActiveChannelID (foldl (\<lambda>c ch. SetActiveChannelID c p ch) ctx chs) p) p = False
   \<and> GetActiveChannelID
       (DeleteActiveChannelID (foldl (\<lambda>c ch. SetActiveChannelID c p ch) ctx chs) p) p
     = ([], False)"
  by (simp add: IsActiveChannel_def GetActiveChannelID_record records_DeleteActiveChannelID)

text \<open>
  Claim C9. For distinct ports \<open>p\<close> and \<open>p'\<close>, each of \<^verbatim>\<open>SetActiveChannelID(p, c)\<close>,
  \<^verbatim>\<open>DeleteActiveChannelID(p)\<close>, \<^verbatim>\<open>SetInterchainAccountAddress(p, a)\<close> and a returning
  \<^verbatim>\<open>BindPort(p)\<close> leaves the port record, the active-channel record and the address record
  of \<open>p'\<close> as they were, and also the two records of \<open>p\<close> of the kinds it does not write.
\<close>

theorem C9_writes_confined_to_named_record:
  "p \<noteq> p' \<Longrightarrow>
   (let ctx1 = SetActiveChannelID ctx p c in
      PortRecord ctx1 p' = PortRecord ctx p'
      \<and> ActiveChannelRecord ctx1 p' = ActiveChannelRecord ctx p'
      \<and> AddressRecord ctx1 p' = AddressRecord ctx p'
      \<and> PortRecord ctx1 p = PortRecord ctx p
      \<and> AddressRecord ctx1 p = AddressRecord ctx p)
   \<and> (let ctx1 = DeleteActiveChannelID ctx p in
      PortRecord ctx1 p' = PortRecord ctx p'
      \<and> ActiveChannelRecord ctx1 p' = ActiveChannelRecord ctx p'
      \<and> AddressRecord ctx1 p' = AddressRecord ctx p'
      \<and> PortRecord ctx1 p = PortRecord ctx p
      \<and> AddressRecord ctx1 p = AddressRecord ctx p)
   \<and> (let ctx1 = SetInterchainAccountAddress ctx p a in
      PortRecord ctx1 p' = PortRecord ctx p'
      \<and> ActiveChannelRecord ctx1 p' = ActiveChannelRecord ctx p'
      \<and> AddressRecord ctx1 p' = AddressRecord ctx p'
      \<and> PortRecord ctx1 p = PortRecord ctx p
      \<and> ActiveChannelRecord ctx1 p = ActiveChannelRecord ctx p)
   \<and> (\<forall>cap ctx1. BindPort k ctx p = Inr (cap, ctx1) \<longrightarrow>
      PortRecord ctx1 p' = PortRecord ctx p'
      \<and> ActiveChannelRecord ctx1 p' = ActiveChannelRecord ctx p'
      \<and> AddressRecord ctx1 p' = AddressRecord ctx p'
      \<and> ActiveChannelRecord ctx1 p = ActiveChannelRecord ctx p
      \<and> AddressRecord ctx1 p = AddressRecord ctx p)"
  by (simp add: Let_def records_SetActiveChannelID records_DeleteActiveChannelID
      records_SetInterchainAccountAddress records_BindPort)

theorem C9_writes_confined_to_named_record_witness:
  "''icacontroller-1'' \<noteq> ''icacontroller-2''
   \<and> PortRecord (SetActiveChannelID test_ctx ''icacontroller-1'' ''channel-0'') ''icacontroller-2''
       = Some [CHR 0x01]
   \<and> (\<exists>cap ctx1. BindPort test_keeper test_ctx ''icacontroller-1'' = Inr (cap, ctx1)
        \<and> ActiveChannelRecord ctx1 ''icacontroller-2'' = Some ''channel-5''
        \<and> AddressRecord ctx1 ''icacontroller-2'' = Some ''cosmos1xyz'')"
proof -
  have ne: "''icacontroller-1'' \<noteq> ''icacontroller-2''" by simp
  have bind: "\<exists>cap ctx1. BindPort test_keeper test_ctx ''icacontroller-1'' = Inr (cap, ctx1)"
    by (simp add: BindPort_def test_keeper_def)
  have before: "PortRecord test_ctx ''icacontroller-2'' = Some [CHR 0x01]"
    "ActiveChannelRecord test_ctx ''icacontroller-2'' = Some ''channel-5''"
    "AddressRecord test_ctx ''icacontroller-2'' = Some ''cosmos1xyz''"
    by (simp_all add: PortRecord_def ActiveChannelRecord_def AddressRecord_def test_ctx_def
        store_Get_def KeyPort_def KeyActiveChannel_def KeyOwnerAccount_def
        PortKeyPrefix_def ActiveChannelKeyPrefix_def OwnerKeyPrefix_def)
  from C9_writes_confined_to_named_record
         [OF ne, of test_ctx "''channel-0''" "''cosmos1aaa''" test_keeper] bind before ne
  show ?thesis by (auto simp: Let_def)
qed

text \<open>
  Claim C10. \<^verbatim>\<open>GetAllPorts\<close> never panics and returns, for each entry under the port
  prefix and in key order, the part of the key between its first and its second \<^verbatim>\<open>/\<close>.
  So after a returning \<^verbatim>\<open>BindPort(p)\<close> the result holds \<open>p\<close> cut before its first \<^verbatim>\<open>/\<close>:
  \<open>p\<close> itself when it has no \<^verbatim>\<open>/\<close>, and not \<open>p\<close> when it has one.
\<close>

theorem C10_GetAllPorts_second_segment:
  "GetAllPorts ctx =
     Inr (map (\<lambda>e. takeWhile (\<lambda>c. c \<noteq> CHR ''/'')
                      (tl (dropWhile (\<lambda>c. c \<noteq> CHR ''/'') (fst e))))
            (KVStorePrefixIterator (kvStore ctx) PortKeyPrefix))
   \<and> (\<forall>cap ctx'. BindPort k ctx p = Inr (cap, ctx') \<longrightarrow>
        (\<exists>ports. GetAllPorts ctx' = Inr ports
           \<and> takeWhile (\<lambda>c. c \<noteq> CHR ''/'') p \<in> set ports
           \<and> (CHR ''/'' \<notin> set p \<longrightarrow> p \<in> set ports)
           \<and> (CHR ''/'' \<in> set p \<longrightarrow> p \<notin> set ports)))"
proof (intro conjI allI impI)
  show "GetAllPorts ctx =
     Inr (map (\<lambda>e. takeWhile (\<lambda>c. c \<noteq> CHR ''/'')
                      (tl (dropWhile (\<lambda>c. c \<noteq> CHR ''/'') (fst e))))
            (KVStorePrefixIterator (kvStore ctx) PortKeyPrefix))"
    by (simp add: GetAllPorts_segments second_segment_def)
next
  fix cap ctx'
  assume b: "BindPort k ctx p = Inr (cap, ctx')"
  let ?ports = "map (\<lambda>e. second_segment (fst e)) (KVStorePrefixIterator (kvStore ctx') PortKeyPrefix)"
  have "(KeyPort p, [CHR 0x01]) \<in> set (KVStorePrefixIterator (kvStore ctx') PortKeyPrefix)"
    by (simp add: KVStorePrefixIterator_def BindPort_kvStore [OF b] set_store_Set)
  then have "second_segment (fst (KeyPort p, [CHR 0x01])) \<in> set ?ports"
    unfolding set_map by (rule imageI)
  then have 1: "takeWhile (\<lambda>c. c \<noteq> CHR ''/'') p \<in> set ?ports"
    by (simp add: second_segment_KeyPort)
  have 2: "CHR ''/'' \<notin> set (second_segment key)" for key
    unfolding second_segment_def by (blast dest: set_takeWhileD)
  have 3: "takeWhile (\<lambda>c. c \<noteq> CHR ''/'') p = p" if "CHR ''/'' \<notin> set p"
    by (rule takeWhile_eq_all_conv [THEN iffD2]) (use that in auto)
  have 4: "p \<in> set ?ports" if "CHR ''/'' \<notin> set p"
    using 1 3 [OF that] by simp
  have "\<forall>q \<in> set ?ports. CHR ''/'' \<notin> set q"
    unfolding set_map by (intro ballI, elim imageE) (simp only: 2 not_False_eq_True)
  then have 5: "p \<notin> set ?ports" if "CHR ''/'' \<in> set p"
    using that by blast
  have "GetAllPorts ctx' = Inr ?ports" by (rule GetAllPorts_segments)
  with 1 4 5 show "\<exists>ports. GetAllPorts ctx' = Inr ports
           \<and> takeWhile (\<lambda>c. c \<noteq> CHR ''/'') p \<in> set ports
           \<and> (CHR ''/'' \<notin> set p \<longrightarrow> p \<in> set ports)
           \<and> (CHR ''/'' \<in> set p \<longrightarrow> p \<notin> set ports)"
    by blast
qed

theorem C10_GetAllPorts_second_segment_witness:
  "\<exists>cap ctx' ports. BindPort test_keeper test_ctx ''ica/controller'' = Inr (cap, ctx')
     \<and> CHR ''/'' \<in> set ''ica/controller''
     \<and> GetAllPorts ctx' = Inr ports \<and> ''ica'' \<in> set ports \<and> ''ica/controller'' \<notin> set ports"
proof -
  have "\<exists>cap ctx'. BindPort test_keeper test_ctx ''ica/controller'' = Inr (cap, ctx')"
    by (simp add: BindPort_def test_keeper_def)
  then obtain cap ctx' where b: "BindPort test_keeper test_ctx ''ica/controller'' = Inr (cap, ctx')"
    by blast
  have sep: "CHR ''/'' \<in> set ''ica/controller''" by simp
  have tw: "takeWhile (\<lambda>c. c \<noteq> CHR ''/'') ''ica/controller'' = ''ica''" by simp
  from C10_GetAllPorts_second_segment [of test_ctx test_keeper "''ica/controller''"] b sep tw
  show ?thesis by metis
qed

end
